theory Spec2Isabelle
  imports Main "HOL-Library.Word" "HOL-Library.Sublist"
begin

section \<open>Video socket controller: shared-memory frame channel and decode loop\<close>

text \<open>
  A shallow embedding of \<^verbatim>\<open>myscrcpy/controller/video_socket_controller.py\<close>:
  the subscriber class \<^verbatim>\<open>VideoStream\<close>, the camera configuration
  \<^verbatim>\<open>VideoCamera\<close> and the publisher \<^verbatim>\<open>VideoSocketController\<close>.
  Python exceptions are values of the type \<open>error\<close>; a function that can raise
  returns \<open>error + 'a\<close> with \<open>Inl\<close> for the exception.
\<close>

subsection \<open>Exceptions\<close>

datatype error =
    RuntimeError string
  | StructError
  | ValueError
  | TypeError
  | AttributeError
  | OSError
  | UnicodeDecodeError

subsection \<open>The \<^verbatim>\<open>struct\<close> formats \<^verbatim>\<open>>I\<close>, \<^verbatim>\<open>>IHH\<close> and \<^verbatim>\<open>>II\<close>\<close>

type_synonym byte = "8 word"

text \<open>Big-endian encodings of an unsigned 16-bit and an unsigned 32-bit value.\<close>

definition be16 :: "nat \<Rightarrow> byte list" where
  "be16 v = [of_nat (v div 256), of_nat v]"

definition be32 :: "nat \<Rightarrow> byte list" where
  "be32 v = [of_nat (v div 16777216), of_nat (v div 65536), of_nat (v div 256), of_nat v]"

definition from_be :: "byte list \<Rightarrow> nat" where
  "from_be bs = foldl (\<lambda>acc b. acc * 256 + unat b) 0 bs"

text \<open>\<^verbatim>\<open>struct.pack('>I', v)\<close>: raises \<^verbatim>\<open>struct.error\<close> outside \<open>0 .. 2^32 - 1\<close>.\<close>

definition pack_I :: "int \<Rightarrow> error + byte list" where
  "pack_I v = (if 0 \<le> v \<and> v < 4294967296 then Inr (be32 (nat v)) else Inl StructError)"

text \<open>\<^verbatim>\<open>struct.pack('>IHH', s, h, w)\<close>; the two shape entries of an array are never negative.\<close>

definition pack_IHH :: "int \<Rightarrow> nat \<Rightarrow> nat \<Rightarrow> error + byte list" where
  "pack_IHH s h w =
     (if 0 \<le> s \<and> s < 4294967296 \<and> h < 65536 \<and> w < 65536
      then Inr (be32 (nat s) @ be16 h @ be16 w)
      else Inl StructError)"

text \<open>\<^verbatim>\<open>struct.unpack('>IHH', bs)\<close>: the buffer must hold exactly 8 bytes.\<close>

definition unpack_IHH :: "byte list \<Rightarrow> error + (int \<times> nat \<times> nat)" where
  "unpack_IHH bs =
     (if length bs = 8
      then Inr (int (from_be (take 4 bs)), from_be (take 2 (drop 4 bs)), from_be (drop 6 bs))
      else Inl StructError)"

text \<open>\<^verbatim>\<open>struct.unpack('>II', bs)\<close>.\<close>

definition unpack_II :: "byte list \<Rightarrow> error + (nat \<times> nat)" where
  "unpack_II bs =
     (if length bs = 8
      then Inr (from_be (take 4 bs), from_be (drop 4 bs))
      else Inl StructError)"

subsection \<open>Geometry\<close>

text \<open>
  Modelled from the spec: the class \<^verbatim>\<open>Coordinate\<close> and the constants
  \<^verbatim>\<open>Param.ROTATION_VERTICAL\<close>, \<^verbatim>\<open>Param.ROTATION_HORIZONTAL\<close> of
  \<^verbatim>\<open>myscrcpy.utils\<close>, which the controller imports. The spec's GeometryView has a
  width and a height, \<open>long_side = max(width, height)\<close> (\<^verbatim>\<open>max_size\<close> in the code),
  \<open>short_side = min(width, height)\<close> (\<^verbatim>\<open>min_size\<close>) and the orientation
  "portrait if height > width else landscape" (\<^verbatim>\<open>rotation\<close>).
\<close>

record coordinate =
  width :: nat
  height :: nat

datatype param_rotation = ROTATION_VERTICAL | ROTATION_HORIZONTAL

text \<open>Modelled from the spec: \<^verbatim>\<open>Coordinate.max_size\<close>, the spec's \<open>long_side\<close>.\<close>

definition long_side :: "coordinate \<Rightarrow> nat" where
  "long_side c = max (width c) (height c)"

text \<open>Modelled from the spec: \<^verbatim>\<open>Coordinate.min_size\<close>, the spec's \<open>short_side\<close>.\<close>

definition short_side :: "coordinate \<Rightarrow> nat" where
  "short_side c = min (width c) (height c)"

text \<open>
  Modelled from the spec: \<^verbatim>\<open>Coordinate.rotation\<close>, the spec's orientation, portrait
  (vertical) if the height is greater than the width and landscape otherwise.
\<close>

definition rotation :: "coordinate \<Rightarrow> param_rotation" where
  "rotation c = (if height c > width c then ROTATION_VERTICAL else ROTATION_HORIZONTAL)"

subsection \<open>The subscriber: \<^verbatim>\<open>VideoStream\<close>\<close>

text \<open>
  A \<^verbatim>\<open>numpy\<close> array built with \<^verbatim>\<open>buffer=shm.buf[8:]\<close> copies nothing: it is a
  shape and an offset into the segment. The segment itself is a byte list that the
  publisher rewrites, so every operation of the subscriber takes its current content.
\<close>

record ndview =
  view_rows :: nat
  view_cols :: nat
  view_chans :: nat
  view_offset :: nat

text \<open>The bytes of the segment that a view reads.\<close>

definition view_bytes :: "ndview \<Rightarrow> byte list \<Rightarrow> byte list" where
  "view_bytes v buf = take (view_rows v * view_cols v * view_chans v) (drop (view_offset v) buf)"

text \<open>
  \<^verbatim>\<open>np.ndarray((rows, cols, 3), dtype=np.uint8, buffer=shm.buf[8:])\<close>: raises
  \<^verbatim>\<open>TypeError\<close> when the buffer is too small for the shape.
\<close>

definition ndarray :: "nat \<Rightarrow> nat \<Rightarrow> byte list \<Rightarrow> error + ndview" where
  "ndarray rows cols buf =
     (if rows * cols * 3 \<le> length (drop 8 buf)
      then Inr \<lparr>view_rows = rows, view_cols = cols, view_chans = 3, view_offset = 8\<rparr>
      else Inl TypeError)"

record video_stream =
  frame_v :: ndview
  frame_h :: ndview
  frame_id :: int

text \<open>
  The body of the property \<^verbatim>\<open>coordinate\<close>: unpack \<^verbatim>\<open>shm.buf[:8]\<close> as
  (frame id, height, width) and build \<^verbatim>\<open>Coordinate(w, h)\<close>.
\<close>

definition read_header :: "byte list \<Rightarrow> error + (int \<times> coordinate)" where
  "read_header buf =
     (case unpack_IHH (take 8 buf) of
        Inl e \<Rightarrow> Inl e
      | Inr (fid, h, w) \<Rightarrow> Inr (fid, \<lparr>width = w, height = h\<rparr>))"

text \<open>The property \<^verbatim>\<open>coordinate\<close> on a constructed stream: it also stores the frame id.\<close>

definition coordinate :: "video_stream \<Rightarrow> byte list \<Rightarrow> error + (video_stream \<times> coordinate)" where
  "coordinate vs buf =
     (case read_header buf of
        Inl e \<Rightarrow> Inl e
      | Inr (fid, c) \<Rightarrow> Inr (vs\<lparr>frame_id := fid\<rparr>, c))"

text \<open>\<^verbatim>\<open>VideoStream.__init__\<close>: both views are made once, from the header read here.\<close>

definition video_stream_init :: "byte list \<Rightarrow> error + video_stream" where
  "video_stream_init buf =
     (case read_header buf of
        Inl e \<Rightarrow> Inl e
      | Inr (fid, c) \<Rightarrow>
          (case ndarray (long_side c) (short_side c) buf of
             Inl e \<Rightarrow> Inl e
           | Inr fv \<Rightarrow>
               (case ndarray (short_side c) (long_side c) buf of
                  Inl e \<Rightarrow> Inl e
                | Inr fh \<Rightarrow> Inr \<lparr>frame_v = fv, frame_h = fh, frame_id = - 1\<rparr>)))"

text \<open>
  \<^verbatim>\<open>VideoStream.get_frame\<close>. The stream object keeps the frame id it has read, also when
  the call raises, so the result is the updated object and the value or the exception.
\<close>

definition get_frame :: "video_stream \<Rightarrow> byte list \<Rightarrow> video_stream \<times> (error + coordinate \<times> ndview)" where
  "get_frame vs buf =
     (case coordinate vs buf of
        Inl e \<Rightarrow> (vs, Inl e)
      | Inr (vs', c) \<Rightarrow>
          if frame_id vs' = 0 then (vs', Inl (RuntimeError ''VideoStream Closed!''))
          else if rotation c = ROTATION_VERTICAL then (vs', Inr (c, frame_v vs'))
          else (vs', Inr (c, frame_h vs')))"

subsection \<open>The camera configuration: \<^verbatim>\<open>VideoCamera\<close>\<close>

text \<open>Formatting of an integer and of an optional string inside an f-string.\<close>

definition digit_char :: "nat \<Rightarrow> char" where
  "digit_char d = char_of (48 + d)"

fun str_nat :: "nat \<Rightarrow> string" where
  "str_nat n = (if n < 10 then [digit_char n] else str_nat (n div 10) @ [digit_char (n mod 10)])"

definition str_int :: "int \<Rightarrow> string" where
  "str_int i = (if i < 0 then CHR ''-'' # str_nat (nat (- i)) else str_nat (nat i))"

definition str_opt :: "string option \<Rightarrow> string" where
  "str_opt s = (case s of None \<Rightarrow> ''None'' | Some t \<Rightarrow> t)"

text \<open>Truth value of an optional string: \<^verbatim>\<open>None\<close> and the empty string are false.\<close>

definition truthy :: "string option \<Rightarrow> bool" where
  "truthy s = (case s of None \<Rightarrow> False | Some t \<Rightarrow> t \<noteq> [])"

record video_camera =
  camera_id :: int
  camera_ar :: "string option"
  camera_size :: "string option"
  camera_fps :: int

text \<open>\<^verbatim>\<open>VideoCamera.to_args\<close>.\<close>

definition camera_to_args :: "video_camera \<Rightarrow> string list" where
  "camera_to_args c =
     [''camera_id='' @ str_int (camera_id c)]
     @ (if truthy (camera_size c) then [''camera_size='' @ str_opt (camera_size c)]
        else if truthy (camera_ar c) then [''camera_ar='' @ str_opt (camera_ar c)]
        else [])
     @ (if camera_fps c > 0 then [''camera_fps='' @ str_int (camera_fps c)] else [])"

text \<open>A token list has a token for the key \<open>k\<close> when one of its tokens starts with \<open>k=\<close>.\<close>

definition has_key :: "string \<Rightarrow> string list \<Rightarrow> bool" where
  "has_key k args = list_ex (\<lambda>tok. prefix (k @ ''='') tok) args"

subsection \<open>The publisher: \<^verbatim>\<open>VideoSocketController\<close>\<close>

text \<open>
  A decoded frame after \<^verbatim>\<open>to_ndarray(format='rgb24')\<close>: an array of shape
  \<open>(shape0, shape1, 3)\<close> of bytes.
\<close>

record frame =
  shape0 :: nat
  shape1 :: nat
  tobytes :: "byte list"

definition nbytes :: "frame \<Rightarrow> nat" where
  "nbytes f = shape0 f * shape1 f * 3"

datatype video_source = SOURCE_DISPLAY | SOURCE_CAMERA

definition source_str :: "video_source \<Rightarrow> string" where
  "source_str s = (case s of SOURCE_DISPLAY \<Rightarrow> ''display'' | SOURCE_CAMERA \<Rightarrow> ''camera'')"

text \<open>
  The fields of the controller. \<open>is_running\<close> and the connection come from the base
  class \<^verbatim>\<open>ScrcpySocket\<close>; of the connection the model keeps whether it has been closed.
  \<open>video_shm\<close> is the name of the attached segment.
\<close>

record controller =
  max_size :: "int option"
  fps :: int
  buffer_size :: int
  video_codec :: string
  video_source :: video_source
  camera :: "video_camera option"
  video_shm :: "string option"
  frame_n :: int
  last_frame :: "frame option"
  is_running :: bool
  conn_closed :: bool

text \<open>\<^verbatim>\<open>VideoSocketController.__init__\<close>; \<open>running\<close> is what the base class has set.\<close>

definition controller_init :: "int option \<Rightarrow> int \<Rightarrow> int \<Rightarrow> video_camera option \<Rightarrow> bool \<Rightarrow> controller" where
  "controller_init ms f bs cam running =
     \<lparr>max_size = ms, fps = f, buffer_size = bs, video_codec = ''h264'',
      video_source = (case cam of Some _ \<Rightarrow> SOURCE_CAMERA | None \<Rightarrow> SOURCE_DISPLAY),
      camera = cam, video_shm = None, frame_n = 0, last_frame = None,
      is_running = running, conn_closed = False\<rparr>"

text \<open>\<^verbatim>\<open>close\<close> clears the running flag and nothing else.\<close>

definition close :: "controller \<Rightarrow> controller" where
  "close st = st\<lparr>is_running := False\<rparr>"

text \<open>\<^verbatim>\<open>VideoSocketController.to_args\<close>.\<close>

definition to_args :: "controller \<Rightarrow> string list" where
  "to_args st =
     [''video=true'',
      ''max_size='' @ (case max_size st of None \<Rightarrow> ''None'' | Some m \<Rightarrow> str_int m),
      ''max_fps='' @ str_int (fps st),
      ''video_codec='' @ video_codec st,
      ''video_source='' @ source_str (video_source st)]
     @ (case camera st of Some c \<Rightarrow> camera_to_args c | None \<Rightarrow> [])"

subsubsection \<open>The handshake of \<^verbatim>\<open>_main_thread\<close>\<close>

definition camera_hint :: string where
  "camera_hint =
     [CHR 0x0A] @ ''1.Check VideoSocket max_size'' @ [CHR 0x0A]
     @ ''2.Check camera_ar'' @ [CHR 0x0A]
     @ ''3.In Camera Mode, No ControlSocket SETUP Please'' @ [CHR 0x0A]
     @ ''4.Use scrcpy --list-camera or --list-camera-sizes then choose a RIGHT ar or size or camera_id''
     @ [CHR 0x0A]
     @ ''5.Make Sure Your Android Device >= 12'' @ [CHR 0x0A]
     @ ''6.Some Android Device NOT SUPPORTED Camera. Use Scrcpy to see the WRONG MSG.''"

text \<open>
  Lines 159 to 174. \<open>name_in\<close> is the outcome of \<^verbatim>\<open>self._conn.recv(4).decode()\<close> (the
  decoded name, or the exception of the socket or of the decoding) and \<open>dims_in\<close> the
  outcome of \<^verbatim>\<open>self._conn.recv(8)\<close>. The result is the logged width and height.
\<close>

definition handshake :: "controller \<Rightarrow> error + string \<Rightarrow> error + byte list \<Rightarrow> error + (nat \<times> nat)" where
  "handshake st name_in dims_in =
     (case name_in of
        Inl e \<Rightarrow> Inl e
      | Inr vc \<Rightarrow>
          if vc = [] \<and> video_source st = SOURCE_CAMERA then Inl (RuntimeError camera_hint)
          else if vc \<noteq> video_codec st
            then Inl (RuntimeError (''Video Codec >'' @ vc @ ''< not supported!''))
          else (case dims_in of Inl e \<Rightarrow> Inl e | Inr bs \<Rightarrow> unpack_II bs))"

subsubsection \<open>The decode loop of \<^verbatim>\<open>_main_thread\<close>\<close>

text \<open>
  What the socket and the codec do is given from outside, one value for each iteration
  of the loop: \<^verbatim>\<open>recv\<close> raises, or returns bytes on which \<^verbatim>\<open>parse\<close> raises or returns
  packets; \<^verbatim>\<open>decode\<close> of a packet raises or returns frames; \<^verbatim>\<open>to_ndarray\<close> of a frame
  raises or returns the array.
\<close>

datatype conversion = Converted frame | To_ndarray_raises

datatype packet = Decoded "conversion list" | Decode_raises

datatype read = Recv_raises | Parse_raises "byte list" | Parsed "byte list" "packet list"

text \<open>Lines 181 and 182, in this order.\<close>

definition set_last_frame :: "controller \<Rightarrow> frame \<Rightarrow> controller" where
  "set_last_frame st f = st\<lparr>last_frame := Some f\<rparr>"

definition inc_frame_n :: "controller \<Rightarrow> controller" where
  "inc_frame_n st = st\<lparr>frame_n := frame_n st + 1\<rparr>"

definition store_frame :: "controller \<Rightarrow> frame \<Rightarrow> controller" where
  "store_frame st f = inc_frame_n (set_last_frame st f)"

text \<open>
  The inner and the outer \<^verbatim>\<open>for\<close> loop. The flag of the result says that an exception
  left the loop; what had been stored before stays stored.
\<close>

fun store_frames :: "controller \<Rightarrow> conversion list \<Rightarrow> controller \<times> bool" where
  "store_frames st [] = (st, False)"
| "store_frames st (Converted f # cs) = store_frames (store_frame st f) cs"
| "store_frames st (To_ndarray_raises # cs) = (st, True)"

fun decode_packets :: "controller \<Rightarrow> packet list \<Rightarrow> controller \<times> bool" where
  "decode_packets st [] = (st, False)"
| "decode_packets st (Decode_raises # ps) = (st, True)"
| "decode_packets st (Decoded cs # ps) =
     (case store_frames st cs of
        (st', True) \<Rightarrow> (st', True)
      | (st', False) \<Rightarrow> decode_packets st' ps)"

text \<open>The \<^verbatim>\<open>try\<close> block of one iteration; \<^verbatim>\<open>except Exception: continue\<close> drops the exception.\<close>

definition loop_body :: "controller \<Rightarrow> read \<Rightarrow> controller" where
  "loop_body st r =
     (case r of
        Recv_raises \<Rightarrow> st
      | Parse_raises _ \<Rightarrow> st
      | Parsed _ ps \<Rightarrow> fst (decode_packets st ps))"

text \<open>
  Between two tests of \<^verbatim>\<open>self.is_running\<close> either the loop body runs on the next read or
  another thread calls \<^verbatim>\<open>close\<close>. The schedule \<open>env\<close> says which, for each position.
  The loop need not end: it is a partial function, and \<open>None\<close> is "does not return".
\<close>

datatype event = Iteration read | Close

definition conn_close :: "controller \<Rightarrow> controller" where
  "conn_close st = st\<lparr>conn_closed := True\<rparr>"

partial_function (option) main_thread_loop :: "(nat \<Rightarrow> event) \<Rightarrow> nat \<Rightarrow> controller \<Rightarrow> controller option" where
  "main_thread_loop env i st =
     (if is_running st
      then (case env i of
              Iteration r \<Rightarrow> main_thread_loop env (Suc i) (loop_body st r)
            | Close \<Rightarrow> main_thread_loop env (Suc i) (close st))
      else Some (conn_close st))"

text \<open>\<^verbatim>\<open>_main_thread\<close>: an exception of the handshake ends the thread before the loop.\<close>

definition main_thread ::
  "controller \<Rightarrow> error + string \<Rightarrow> error + byte list \<Rightarrow> (nat \<Rightarrow> event) \<Rightarrow> (error + controller) option" where
  "main_thread st name_in dims_in env =
     (case handshake st name_in dims_in of
        Inl e \<Rightarrow> Some (Inl e)
      | Inr _ \<Rightarrow> map_option Inr (main_thread_loop env 0 st))"

subsubsection \<open>\<^verbatim>\<open>create_shared_frame\<close>\<close>

text \<open>
  The named segments of the operating system: a map from names to contents.
  \<^verbatim>\<open>SharedMemory(name, create=True, size)\<close> raises \<^verbatim>\<open>ValueError\<close> for size 0 and
  \<^verbatim>\<open>FileExistsError\<close> for a name in use; \<^verbatim>\<open>SharedMemory(name)\<close> raises
  \<^verbatim>\<open>FileNotFoundError\<close> for a name not in use.
\<close>

type_synonym segments = "string \<rightharpoonup> byte list"

datatype shm_error = FileExistsError | FileNotFoundError | Other error

definition shm_create :: "segments \<Rightarrow> string \<Rightarrow> nat \<Rightarrow> shm_error + segments" where
  "shm_create segs name sz =
     (if sz = 0 then Inl (Other ValueError)
      else case segs name of
             Some _ \<Rightarrow> Inl FileExistsError
           | None \<Rightarrow> Inr (segs(name \<mapsto> replicate sz 0)))"

definition shm_attach :: "segments \<Rightarrow> string \<Rightarrow> shm_error + byte list" where
  "shm_attach segs name =
     (case segs name of None \<Rightarrow> Inl FileNotFoundError | Some buf \<Rightarrow> Inr buf)"

text \<open>
  Lines 191 to 196; \<open>f_name\<close> is the name made from the clock and the random number.
\<close>

definition create_shared_frame ::
  "controller \<Rightarrow> segments \<Rightarrow> string \<Rightarrow> nat \<Rightarrow> shm_error + (controller \<times> segments)" where
  "create_shared_frame st segs f_name sz =
     (case shm_create segs f_name sz of
        Inr segs' \<Rightarrow> Inr (st\<lparr>video_shm := Some f_name\<rparr>, segs')
      | Inl FileExistsError \<Rightarrow>
          (case shm_attach segs f_name of
             Inl e \<Rightarrow> Inl e
           | Inr _ \<Rightarrow> Inr (st\<lparr>video_shm := Some f_name\<rparr>, segs))
      | Inl e \<Rightarrow> Inl e)"

subsubsection \<open>The publishing loop of \<^verbatim>\<open>_share_thread\<close>\<close>

text \<open>
  Lines 213 to 216: the header and the pixels replace the whole segment. A slice
  assignment of another length raises \<^verbatim>\<open>ValueError\<close>; without a frame the access to
  \<^verbatim>\<open>shape\<close> raises \<^verbatim>\<open>AttributeError\<close>.
\<close>

definition publish :: "controller \<Rightarrow> byte list \<Rightarrow> error + byte list" where
  "publish st buf =
     (case last_frame st of
        None \<Rightarrow> Inl AttributeError
      | Some f \<Rightarrow>
          (case pack_IHH (frame_n st) (shape0 f) (shape1 f) of
             Inl e \<Rightarrow> Inl e
           | Inr hdr \<Rightarrow>
               if length (hdr @ tobytes f) = length buf then Inr (hdr @ tobytes f)
               else Inl ValueError))"

text \<open>Line 220: \<^verbatim>\<open>self.video_shm.buf[:4] = struct.pack('>I', 0)\<close>.\<close>

definition write_sentinel :: "byte list \<Rightarrow> error + byte list" where
  "write_sentinel buf =
     (case pack_I 0 of
        Inl e \<Rightarrow> Inl e
      | Inr z \<Rightarrow> if length (take 4 buf) = length z then Inr (z @ drop 4 buf) else Inl ValueError)"

text \<open>
  Lines 210 to 220. \<open>obs i\<close> is the controller as the publishing thread sees it in its
  \<open>i\<close>-th iteration (the decode thread and \<^verbatim>\<open>close\<close> change it in between), \<open>n\<close> the
  last published frame number and \<open>buf\<close> the content of the segment. The result is the
  content the segment is left with, which the attached subscribers go on reading after
  \<^verbatim>\<open>close\<close> and \<^verbatim>\<open>unlink\<close>, or the exception that ended the thread.
\<close>

partial_function (option) share_thread_loop ::
  "(nat \<Rightarrow> controller) \<Rightarrow> nat \<Rightarrow> int \<Rightarrow> byte list \<Rightarrow> (error + byte list) option" where
  "share_thread_loop obs i n buf =
     (if is_running (obs i)
      then (if n \<noteq> frame_n (obs i)
            then (case publish (obs i) buf of
                    Inl e \<Rightarrow> Some (Inl e)
                  | Inr buf' \<Rightarrow> share_thread_loop obs (Suc i) (frame_n (obs i)) buf')
            else share_thread_loop obs (Suc i) n buf)
      else Some (write_sentinel buf))"

subsection \<open>Notions used by the properties\<close>

text \<open>The frames of one read that reach line 181 and 182: those before the first exception.\<close>

fun converted_frames :: "conversion list \<Rightarrow> frame list \<times> bool" where
  "converted_frames [] = ([], False)"
| "converted_frames (Converted f # cs) = (f # fst (converted_frames cs), snd (converted_frames cs))"
| "converted_frames (To_ndarray_raises # cs) = ([], True)"

fun decoded_frames :: "packet list \<Rightarrow> frame list" where
  "decoded_frames [] = []"
| "decoded_frames (Decode_raises # ps) = []"
| "decoded_frames (Decoded cs # ps) =
     (if snd (converted_frames cs) then fst (converted_frames cs)
      else fst (converted_frames cs) @ decoded_frames ps)"

definition frames_of_read :: "read \<Rightarrow> frame list" where
  "frames_of_read r = (case r of Parsed _ ps \<Rightarrow> decoded_frames ps | _ \<Rightarrow> [])"

text \<open>The schedule that runs the loop body on each read of a list and then calls \<^verbatim>\<open>close\<close>.\<close>

definition reads_then_close :: "read list \<Rightarrow> nat \<Rightarrow> event" where
  "reads_then_close rs i = (if i < length rs then Iteration (rs ! i) else Close)"

text \<open>The invariant of the frame store: the counter is 0 exactly when no frame is held.\<close>

definition frame_store_inv :: "controller \<Rightarrow> bool" where
  "frame_store_inv st = ((frame_n st = 0) = (last_frame st = None))"

text \<open>An exhausted stream: every \<^verbatim>\<open>recv\<close> returns \<^verbatim>\<open>b''\<close>, from which nothing is parsed, and nobody calls \<^verbatim>\<open>close\<close>.\<close>

definition exhausted_stream :: "nat \<Rightarrow> event" where
  "exhausted_stream i = Iteration (Parsed [] [])"

text \<open>A controller that runs and holds its first frame, of one pixel.\<close>

definition one_pixel :: frame where
  "one_pixel = \<lparr>shape0 = 1, shape1 = 1, tobytes = [9, 9, 9]\<rparr>"

definition streaming :: controller where
  "streaming = store_frame (controller_init None 90 131072 None True) one_pixel"

text \<open>What the publishing thread sees when \<^verbatim>\<open>close\<close> is called after its first iteration.\<close>

definition closed_after_one :: "nat \<Rightarrow> controller" where
  "closed_after_one i = (if i = 0 then streaming else close streaming)"

subsection \<open>Round trip of the big-endian encodings\<close>

lemma from_be_be16: "v < 65536 \<Longrightarrow> from_be (be16 v) = v"
proof -
  assume "v < 65536"
  then have "v div 256 < 256" by simp
  then show ?thesis by (simp add: from_be_def be16_def unat_of_nat)
qed

lemma from_be_be32:
  assumes "v < 4294967296"
  shows "from_be (be32 v) = v"
proof -
  from assms have hi: "v div 16777216 mod 256 = v div 16777216" by simp
  have d3: "v div 16777216 = v div 65536 div 256" by (simp add: div_mult2_eq[symmetric])
  have d2: "v div 65536 = v div 256 div 256" by (simp add: div_mult2_eq[symmetric])
  have "v div 16777216 mod 256 * 256 + v div 65536 mod 256 = v div 65536"
    unfolding hi unfolding d3 by simp
  moreover have "v div 65536 * 256 + v div 256 mod 256 = v div 256"
    unfolding d2 by simp
  ultimately have
    "((v div 16777216 mod 256 * 256 + v div 65536 mod 256) * 256 + v div 256 mod 256) * 256
       + v mod 256 = v"
    by simp
  then show ?thesis by (simp add: from_be_def be32_def unat_of_nat hi)
qed

lemma length_be32 [simp]: "length (be32 v) = 4"
  by (simp add: be32_def)

lemma length_be16 [simp]: "length (be16 v) = 2"
  by (simp add: be16_def)

lemma unpack_pack_IHH:
  assumes "pack_IHH s h w = Inr hdr"
  shows "length hdr = 8 \<and> unpack_IHH (take 8 (hdr @ payload)) = Inr (s, h, w)"
proof -
  from assms have rng: "0 \<le> s" "s < 4294967296" "h < 65536" "w < 65536"
    and hdr: "hdr = be32 (nat s) @ be16 h @ be16 w"
    by (auto simp: pack_IHH_def split: if_splits)
  from rng have "nat s < 4294967296" by simp
  then have "from_be (be32 (nat s)) = nat s" by (rule from_be_be32)
  with rng show ?thesis
    by (simp add: hdr unpack_IHH_def from_be_be16)
qed

text \<open>
  C2. Packing a header \<open>(sequence, height, width)\<close> with the publisher's
  \<^verbatim>\<open>struct.pack('>IHH', ...)\<close> and reading bytes \<open>[0:8]\<close> of the segment back with
  the subscriber's \<^verbatim>\<open>struct.unpack('>IHH', ...)\<close> returns the same triple, for every
  sequence below \<open>2^32\<close> and every height and width below \<open>2^16\<close>; the pixel payload
  that follows the header does not matter.
\<close>

theorem header_roundtrip:
  "0 \<le> s \<Longrightarrow> s < 4294967296 \<Longrightarrow> h < 65536 \<Longrightarrow> w < 65536 \<Longrightarrow>
   \<exists>hdr. pack_IHH s h w = Inr hdr \<and> length hdr = 8 \<and>
         unpack_IHH (take 8 (hdr @ payload)) = Inr (s, h, w)"
proof -
  assume rng: "0 \<le> s" "s < 4294967296" "h < 65536" "w < 65536"
  then have "pack_IHH s h w = Inr (be32 (nat s) @ be16 h @ be16 w)"
    by (simp add: pack_IHH_def)
  then show ?thesis
    using unpack_pack_IHH by blast
qed

theorem header_roundtrip_witness:
  "pack_IHH 5 1920 1080 = Inr [0, 0, 0, 5, 7, 128, 4, 56] \<and>
   unpack_IHH (take 8 ([0, 0, 0, 5, 7, 128, 4, 56] @ [1, 2, 3])) = Inr (5, 1920, 1080)"
proof -
  have p: "pack_IHH 5 1920 1080 = Inr [0, 0, 0, 5, 7, 128, 4, 56]"
    by (simp add: pack_IHH_def be32_def be16_def)
  from header_roundtrip [of 5 1920 1080 "[1, 2, 3]"]
  obtain hdr where "pack_IHH 5 1920 1080 = Inr hdr"
    and "unpack_IHH (take 8 (hdr @ [1, 2, 3])) = Inr (5, 1920, 1080)"
    by auto
  with p show ?thesis by simp
qed

subsection \<open>Reading a frame from the segment\<close>

lemma read_header_unpack:
  "unpack_IHH (take 8 buf) = Inr (s, h, w) \<Longrightarrow>
   read_header buf = Inr (s, \<lparr>width = w, height = h\<rparr>)"
  by (simp add: read_header_def)

lemma video_stream_init_views:
  assumes "video_stream_init buf0 = Inr vs" and "read_header buf0 = Inr (s0, c0)"
  shows "vs = \<lparr>frame_v = \<lparr>view_rows = long_side c0, view_cols = short_side c0,
                            view_chans = 3, view_offset = 8\<rparr>,
               frame_h = \<lparr>view_rows = short_side c0, view_cols = long_side c0,
                            view_chans = 3, view_offset = 8\<rparr>,
               frame_id = - 1\<rparr>"
  using assms
  by (auto simp: video_stream_init_def ndarray_def split: sum.splits if_splits)

text \<open>
  C3. Let a subscriber be attached to a segment whose header then gave the geometry
  \<open>c0\<close>, and let the header now hold a sequence \<open>s \<noteq> 0\<close>, a height \<open>h\<close> and a width
  \<open>w\<close>. Whatever frame id the object remembers from earlier reads, \<open>get_frame\<close> returns
  the geometry of the current header and, if \<open>h > w\<close>, the view with \<open>long_side\<close> rows
  and \<open>short_side\<close> columns, otherwise the view with \<open>short_side\<close> rows and
  \<open>long_side\<close> columns. Both views start at offset 8 of the segment and read the same
  bytes of it.
\<close>

theorem get_frame_orientation:
  assumes "video_stream_init buf0 = Inr vs" and "read_header buf0 = Inr (s0, c0)"
    and "unpack_IHH (take 8 buf) = Inr (s, h, w)" and "s \<noteq> 0"
  shows "get_frame (vs\<lparr>frame_id := k\<rparr>) buf =
           (vs\<lparr>frame_id := s\<rparr>,
            Inr (\<lparr>width = w, height = h\<rparr>,
                 if h > w
                 then \<lparr>view_rows = long_side c0, view_cols = short_side c0,
                       view_chans = 3, view_offset = 8\<rparr>
                 else \<lparr>view_rows = short_side c0, view_cols = long_side c0,
                       view_chans = 3, view_offset = 8\<rparr>))
         \<and> view_bytes (frame_v vs) buf = take (long_side c0 * short_side c0 * 3) (drop 8 buf)
         \<and> view_bytes (frame_h vs) buf = view_bytes (frame_v vs) buf"
proof -
  note vs = video_stream_init_views [OF assms(1,2)]
  have hdr: "read_header buf = Inr (s, \<lparr>width = w, height = h\<rparr>)"
    using assms(3) by (rule read_header_unpack)
  have "get_frame (vs\<lparr>frame_id := k\<rparr>) buf =
          (vs\<lparr>frame_id := s\<rparr>,
           Inr (\<lparr>width = w, height = h\<rparr>, if h > w then frame_v vs else frame_h vs))"
    using \<open>s \<noteq> 0\<close> by (simp add: get_frame_def coordinate_def hdr rotation_def)
  moreover have "frame_v vs = \<lparr>view_rows = long_side c0, view_cols = short_side c0,
                                view_chans = 3, view_offset = 8\<rparr>"
    by (subst vs) simp
  moreover have "frame_h vs = \<lparr>view_rows = short_side c0, view_cols = long_side c0,
                                view_chans = 3, view_offset = 8\<rparr>"
    by (subst vs) simp
  ultimately show ?thesis
    by (simp add: view_bytes_def mult.commute)
qed

theorem get_frame_orientation_witness:
  "snd (get_frame \<lparr>frame_v = \<lparr>view_rows = 1920, view_cols = 1080, view_chans = 3, view_offset = 8\<rparr>,
                   frame_h = \<lparr>view_rows = 1080, view_cols = 1920, view_chans = 3, view_offset = 8\<rparr>,
                   frame_id = - 1\<rparr>
         ([0, 0, 0, 5, 7, 128, 4, 56] @ replicate 6220800 0))
     = Inr (\<lparr>width = 1080, height = 1920\<rparr>,
            \<lparr>view_rows = 1920, view_cols = 1080, view_chans = 3, view_offset = 8\<rparr>)
   \<and> snd (get_frame \<lparr>frame_v = \<lparr>view_rows = 1920, view_cols = 1080, view_chans = 3, view_offset = 8\<rparr>,
                   frame_h = \<lparr>view_rows = 1080, view_cols = 1920, view_chans = 3, view_offset = 8\<rparr>,
                   frame_id = - 1\<rparr>
         ([0, 0, 0, 6, 4, 56, 7, 128] @ replicate 6220800 0))
     = Inr (\<lparr>width = 1920, height = 1080\<rparr>,
            \<lparr>view_rows = 1080, view_cols = 1920, view_chans = 3, view_offset = 8\<rparr>)"
proof -
  let ?b0 = "[0, 0, 0, 5, 7, 128, 4, 56] @ replicate 6220800 (0 :: byte)"
  let ?b1 = "[0, 0, 0, 6, 4, 56, 7, 128] @ replicate 6220800 (0 :: byte)"
  let ?vs = "\<lparr>frame_v = \<lparr>view_rows = 1920, view_cols = 1080, view_chans = 3, view_offset = 8\<rparr>,
              frame_h = \<lparr>view_rows = 1080, view_cols = 1920, view_chans = 3, view_offset = 8\<rparr>,
              frame_id = - 1\<rparr>"
  have u0: "unpack_IHH (take 8 ?b0) = Inr (5, 1920, 1080)"
    by (simp add: unpack_IHH_def from_be_def)
  have u1: "unpack_IHH (take 8 ?b1) = Inr (6, 1080, 1920)"
    by (simp add: unpack_IHH_def from_be_def)
  have h0: "read_header ?b0 = Inr (5, \<lparr>width = 1080, height = 1920\<rparr>)"
    using u0 by (rule read_header_unpack)
  have i0: "video_stream_init ?b0 = Inr ?vs"
    unfolding video_stream_init_def h0
    by (simp add: ndarray_def long_side_def short_side_def)
  have "(5::int) \<noteq> 0" and "(6::int) \<noteq> 0" by simp_all
  from get_frame_orientation [OF i0 h0 u0 \<open>(5::int) \<noteq> 0\<close>, of "- 1"]
       get_frame_orientation [OF i0 h0 u1 \<open>(6::int) \<noteq> 0\<close>, of "- 1"]
  show ?thesis
    by (simp add: long_side_def short_side_def)
qed

subsection \<open>Camera arguments\<close>

lemma has_key_camera_size_iff:
  "has_key ''camera_size'' (camera_to_args c) = truthy (camera_size c)"
  by (simp add: has_key_def camera_to_args_def)

lemma has_key_camera_ar_iff:
  "has_key ''camera_ar'' (camera_to_args c) = (\<not> truthy (camera_size c) \<and> truthy (camera_ar c))"
  by (simp add: has_key_def camera_to_args_def)

lemma has_key_to_args_camera_size:
  "has_key ''camera_size'' (to_args st) =
     (case camera st of None \<Rightarrow> False | Some c \<Rightarrow> has_key ''camera_size'' (camera_to_args c))"
  by (simp add: has_key_def to_args_def split: option.splits)

lemma has_key_to_args_camera_ar:
  "has_key ''camera_ar'' (to_args st) =
     (case camera st of None \<Rightarrow> False | Some c \<Rightarrow> has_key ''camera_ar'' (camera_to_args c))"
  by (simp add: has_key_def to_args_def split: option.splits)

text \<open>
  C8. When \<open>camera_size\<close> and \<open>camera_ar\<close> are both set (to a string that is not
  empty), the argument list of the camera contains the token \<open>camera_size=<size>\<close>
  and no \<open>camera_ar\<close> token. In every argument list, of the camera and of the
  controller, at most one of the two keys occurs.
\<close>

theorem camera_size_precedence:
  "(truthy (camera_size c) \<and> truthy (camera_ar c) \<longrightarrow>
      (''camera_size='' @ str_opt (camera_size c)) \<in> set (camera_to_args c)
      \<and> \<not> has_key ''camera_ar'' (camera_to_args c))
   \<and> \<not> (has_key ''camera_size'' (camera_to_args c') \<and> has_key ''camera_ar'' (camera_to_args c'))
   \<and> \<not> (has_key ''camera_size'' (to_args st) \<and> has_key ''camera_ar'' (to_args st))"
proof -
  have "truthy (camera_size c) \<Longrightarrow>
          (''camera_size='' @ str_opt (camera_size c)) \<in> set (camera_to_args c)"
    by (simp add: camera_to_args_def)
  moreover have "\<not> (has_key ''camera_size'' (to_args st) \<and> has_key ''camera_ar'' (to_args st))"
    by (simp add: has_key_to_args_camera_size has_key_to_args_camera_ar
                  has_key_camera_size_iff has_key_camera_ar_iff split: option.splits)
  ultimately show ?thesis
    by (simp add: has_key_camera_size_iff has_key_camera_ar_iff)
qed

theorem camera_size_precedence_witness:
  "truthy (Some ''1280x720'') \<and> truthy (Some ''16:9'')
   \<and> ''camera_size=1280x720''
        \<in> set (camera_to_args \<lparr>camera_id = 0, camera_ar = Some ''16:9'',
                                camera_size = Some ''1280x720'', camera_fps = 0\<rparr>)
   \<and> \<not> has_key ''camera_ar''
          (camera_to_args \<lparr>camera_id = 0, camera_ar = Some ''16:9'',
                           camera_size = Some ''1280x720'', camera_fps = 0\<rparr>)"
  using camera_size_precedence
    [of "\<lparr>camera_id = 0, camera_ar = Some ''16:9'', camera_size = Some ''1280x720'',
          camera_fps = 0\<rparr>"]
  by (simp add: truthy_def str_opt_def)

subsection \<open>The handshake\<close>

text \<open>
  C6. When the received codec name is not the expected one (and is not empty, as no
  name of 4 bytes is), \<^verbatim>\<open>_main_thread\<close> ends with the \<^verbatim>\<open>RuntimeError\<close> that says the
  received name is not supported. The schedule of the decode loop plays no part: the
  loop is not entered, and no frame is ever stored.
\<close>

theorem codec_mismatch_unsupported:
  "vc \<noteq> video_codec st \<Longrightarrow> vc \<noteq> [] \<Longrightarrow>
   handshake st (Inr vc) dims_in = Inl (RuntimeError (''Video Codec >'' @ vc @ ''< not supported!''))
   \<and> main_thread st (Inr vc) dims_in env
       = Some (Inl (RuntimeError (''Video Codec >'' @ vc @ ''< not supported!'')))"
  by (simp add: main_thread_def handshake_def)

theorem codec_mismatch_unsupported_witness:
  "main_thread (controller_init None 90 131072 None True) (Inr ''h265'')
     (Inr [0, 0, 4, 56, 0, 0, 7, 128]) (\<lambda>i. Iteration Recv_raises)
   = Some (Inl (RuntimeError ''Video Codec >h265< not supported!''))"
  using codec_mismatch_unsupported
    [of "''h265''" "controller_init None 90 131072 None True"
        "Inr [0, 0, 4, 56, 0, 0, 7, 128]" "\<lambda>i. Iteration Recv_raises"]
  by (simp add: controller_init_def)

text \<open>
  C10. With the display as video source an empty codec name is answered by the
  \<^verbatim>\<open>RuntimeError\<close> for an unsupported codec (with the empty name in it). When both
  \<^verbatim>\<open>recv\<close> calls return, the handshake raises the \<^verbatim>\<open>RuntimeError\<close> with the camera
  check list only if the video source is the camera and the name is empty.
\<close>

theorem empty_codec_display_unsupported:
  "(video_source st = SOURCE_DISPLAY \<and> video_codec st \<noteq> [] \<longrightarrow>
      handshake st (Inr []) dims_in = Inl (RuntimeError ''Video Codec >< not supported!''))
   \<and> (handshake st' (Inr vc) (Inr bs) = Inl (RuntimeError camera_hint) \<longrightarrow>
      video_source st' = SOURCE_CAMERA \<and> vc = [])"
proof -
  have "camera_hint \<noteq> ''Video Codec >'' @ vc @ ''< not supported!''"
    by (simp add: camera_hint_def)
  then show ?thesis
    by (auto simp: handshake_def unpack_II_def split: if_splits)
qed

theorem empty_codec_display_unsupported_witness:
  "handshake (controller_init None 90 131072 None True) (Inr []) (Inr [])
     = Inl (RuntimeError ''Video Codec >< not supported!'')
   \<and> handshake (controller_init None 90 131072
                  (Some \<lparr>camera_id = 0, camera_ar = None, camera_size = None, camera_fps = 0\<rparr>) True)
        (Inr []) (Inr [])
     = Inl (RuntimeError camera_hint)"
proof -
  let ?d = "controller_init None 90 131072 None True"
  let ?c = "controller_init None 90 131072
              (Some \<lparr>camera_id = 0, camera_ar = None, camera_size = None, camera_fps = 0\<rparr>) True"
  have c: "handshake ?c (Inr []) (Inr []) = Inl (RuntimeError camera_hint)"
    by (simp add: handshake_def controller_init_def)
  from empty_codec_display_unsupported [of ?d "Inr []" ?c "[]" "[]"] c
  show ?thesis
    by (simp add: controller_init_def)
qed

subsection \<open>Creating the segment\<close>

text \<open>
  C9. When a segment of the generated name exists already, \<^verbatim>\<open>create_shared_frame\<close>
  (called with a size that is not 0, as line 208 does) raises nothing: the controller
  is attached to the segment of that name, and the segments and their contents are as
  they were.
\<close>

theorem create_shared_frame_collision:
  "segs f_name = Some buf \<Longrightarrow> 0 < sz \<Longrightarrow>
   create_shared_frame st segs f_name sz = Inr (st\<lparr>video_shm := Some f_name\<rparr>, segs)"
  by (simp add: create_shared_frame_def shm_create_def shm_attach_def)

theorem create_shared_frame_collision_witness:
  "create_shared_frame (controller_init None 90 131072 None True)
     [''vf_0731120000_12345'' \<mapsto> [0, 0, 0, 1, 0, 1, 0, 1, 9, 9, 9]] ''vf_0731120000_12345''
     (nbytes \<lparr>shape0 = 1, shape1 = 1, tobytes = [9, 9, 9]\<rparr> + 8)
   = Inr ((controller_init None 90 131072 None True)\<lparr>video_shm := Some ''vf_0731120000_12345''\<rparr>,
          [''vf_0731120000_12345'' \<mapsto> [0, 0, 0, 1, 0, 1, 0, 1, 9, 9, 9]])"
  using create_shared_frame_collision
    [of "[''vf_0731120000_12345'' \<mapsto> [0, 0, 0, 1, 0, 1, 0, 1, 9, 9, 9]]"
        "''vf_0731120000_12345''" "[0, 0, 0, 1, 0, 1, 0, 1, 9, 9, 9]"
        "nbytes \<lparr>shape0 = 1, shape1 = 1, tobytes = [9, 9, 9]\<rparr> + 8"
        "controller_init None 90 131072 None True"]
  by simp

subsection \<open>The decode loop\<close>

lemma store_frames_foldl:
  "store_frames st cs =
     (foldl store_frame st (fst (converted_frames cs)), snd (converted_frames cs))"
proof (induction cs arbitrary: st)
  case Nil
  show ?case by simp
next
  case (Cons c cs)
  show ?case by (cases c) (simp_all add: Cons.IH)
qed

lemma decode_packets_foldl:
  "fst (decode_packets st ps) = foldl store_frame st (decoded_frames ps)"
proof (induction ps arbitrary: st)
  case Nil
  show ?case by simp
next
  case (Cons p ps)
  show ?case
  proof (cases p)
    case Decode_raises
    then show ?thesis by simp
  next
    case (Decoded cs)
    then show ?thesis
      by (simp add: store_frames_foldl Cons.IH)
  qed
qed

lemma loop_body_foldl: "loop_body st r = foldl store_frame st (frames_of_read r)"
  by (cases r) (simp_all add: loop_body_def frames_of_read_def decode_packets_foldl)

lemma foldl_loop_body:
  "foldl loop_body st rs = foldl store_frame st (concat (map frames_of_read rs))"
  by (induction rs arbitrary: st) (simp_all add: loop_body_foldl)

lemma frame_n_store_frame: "frame_n (store_frame st f) = frame_n st + 1"
  by (simp add: store_frame_def inc_frame_n_def set_last_frame_def)

lemma frame_n_foldl_store:
  "frame_n (foldl store_frame st fs) = frame_n st + int (length fs)"
  by (induction fs arbitrary: st) (simp_all add: frame_n_store_frame)

lemma is_running_foldl_store: "is_running (foldl store_frame st fs) = is_running st"
  by (induction fs arbitrary: st)
     (simp_all add: store_frame_def inc_frame_n_def set_last_frame_def)

lemma is_running_loop_body: "is_running (loop_body st r) = is_running st"
  by (simp add: loop_body_foldl is_running_foldl_store)

lemma main_thread_loop_stopped:
  "\<not> is_running st \<Longrightarrow> main_thread_loop env i st = Some (conn_close st)"
  by (subst main_thread_loop.simps) simp

lemma main_thread_loop_Close:
  "is_running st \<Longrightarrow> env i = Close \<Longrightarrow>
   main_thread_loop env i st = Some (conn_close (close st))"
  by (subst main_thread_loop.simps) (simp add: main_thread_loop_stopped close_def)

lemma main_thread_loop_Iteration:
  "is_running st \<Longrightarrow> env i = Iteration r \<Longrightarrow>
   main_thread_loop env i st = main_thread_loop env (Suc i) (loop_body st r)"
  by (subst main_thread_loop.simps) simp

lemma main_thread_loop_reads:
  "is_running st \<Longrightarrow> i \<le> length rs \<Longrightarrow>
   main_thread_loop (reads_then_close rs) i st
     = Some (conn_close (close (foldl loop_body st (drop i rs))))"
proof (induction "length rs - i" arbitrary: i st)
  case 0
  then have "reads_then_close rs i = Close" and "drop i rs = []"
    by (simp_all add: reads_then_close_def)
  with "0.prems" show ?case
    by (simp add: main_thread_loop_Close)
next
  case (Suc k)
  then have lt: "i < length rs" by simp
  then have ev: "reads_then_close rs i = Iteration (rs ! i)"
    by (simp add: reads_then_close_def)
  have "main_thread_loop (reads_then_close rs) (Suc i) (loop_body st (rs ! i))
          = Some (conn_close (close (foldl loop_body (loop_body st (rs ! i)) (drop (Suc i) rs))))"
    using Suc.hyps(2) Suc.prems lt
    by (intro Suc.hyps(1)) (simp_all add: is_running_loop_body)
  moreover have "drop i rs = rs ! i # drop (Suc i) rs"
    using lt by (simp add: Cons_nth_drop_Suc)
  ultimately show ?case
    using Suc.prems(1) ev by (simp add: main_thread_loop_Iteration)
qed

text \<open>
  C1. The frame counter is 0 after \<^verbatim>\<open>__init__\<close>; storing one decoded frame adds
  exactly one to it; one iteration of the loop stores the frames of its read one after
  the other in decode order, so that the \<open>j\<close>-th stored frame takes the counter to
  \<open>j\<close> more than before, however the frames are spread over the reads; and a run of
  the loop over the reads \<open>rs\<close>, started with the counter at 0 and ended by
  \<^verbatim>\<open>close\<close>, returns with the counter equal to the number of frames decoded from
  \<open>rs\<close>.
\<close>

theorem frame_counter_counts_frames:
  "frame_n (controller_init ms fp bs cam running) = 0
   \<and> frame_n (store_frame st1 fr) = frame_n st1 + 1
   \<and> loop_body st1 r = foldl store_frame st1 (frames_of_read r)
   \<and> (\<forall>j\<le>length fs. frame_n (foldl store_frame st1 (take j fs)) = frame_n st1 + int j)
   \<and> (is_running st \<and> frame_n st = 0 \<longrightarrow>
        (\<exists>st'. main_thread_loop (reads_then_close rs) 0 st = Some st'
              \<and> st' = conn_close (close (foldl store_frame st (concat (map frames_of_read rs))))
              \<and> frame_n st' = int (length (concat (map frames_of_read rs)))))"
proof -
  have "frame_n (controller_init ms fp bs cam running) = 0"
    by (simp add: controller_init_def)
  moreover have "\<forall>j\<le>length fs. frame_n (foldl store_frame st1 (take j fs)) = frame_n st1 + int j"
    by (simp add: frame_n_foldl_store)
  moreover have "\<exists>st'. main_thread_loop (reads_then_close rs) 0 st = Some st'
              \<and> st' = conn_close (close (foldl store_frame st (concat (map frames_of_read rs))))
              \<and> frame_n st' = int (length (concat (map frames_of_read rs)))"
    if "is_running st" and "frame_n st = 0"
    using main_thread_loop_reads [OF that(1), of 0 rs] that(2)
    by (simp add: foldl_loop_body conn_close_def close_def frame_n_foldl_store)
  ultimately show ?thesis
    using frame_n_store_frame loop_body_foldl by blast
qed

theorem frame_counter_counts_frames_witness:
  "is_running (controller_init None 90 131072 None True)
   \<and> frame_n (controller_init None 90 131072 None True) = 0
   \<and> (\<exists>st'. main_thread_loop
               (reads_then_close
                  [Parsed [1] [Decoded [Converted one_pixel, Converted one_pixel]],
                   Recv_raises,
                   Parsed [2] [Decoded [Converted one_pixel], Decode_raises, Decoded [Converted one_pixel]]])
               0 (controller_init None 90 131072 None True) = Some st'
            \<and> frame_n st' = 3)
   \<and> frame_n (foldl store_frame (controller_init None 90 131072 None True)
                (take 2 [one_pixel, one_pixel, one_pixel])) = 2"
proof -
  let ?st = "controller_init None 90 131072 None True"
  let ?rs = "[Parsed [1] [Decoded [Converted one_pixel, Converted one_pixel]],
              Recv_raises,
              Parsed [2] [Decoded [Converted one_pixel], Decode_raises, Decoded [Converted one_pixel]]]"
  let ?fs = "[one_pixel, one_pixel, one_pixel]"
  note inst = frame_counter_counts_frames
               [of None 90 131072 None True ?st one_pixel Recv_raises ?fs ?st ?rs]
  have run: "is_running ?st" and zero: "frame_n ?st = 0"
    by (simp_all add: controller_init_def)
  have n: "int (length (concat (map frames_of_read ?rs))) = 3"
    by (simp add: frames_of_read_def)
  from inst have "\<forall>j\<le>length ?fs. frame_n (foldl store_frame ?st (take j ?fs)) = frame_n ?st + int j"
    by blast
  then have "2 \<le> length ?fs \<longrightarrow>
               frame_n (foldl store_frame ?st (take 2 ?fs)) = frame_n ?st + int 2"
    by (rule spec)
  then have "frame_n (foldl store_frame ?st (take 2 ?fs)) = frame_n ?st + int 2"
    by simp
  with zero have two: "frame_n (foldl store_frame ?st (take 2 ?fs)) = 2"
    by simp
  from inst run zero
  have "\<exists>st'. main_thread_loop (reads_then_close ?rs) 0 ?st = Some st'
             \<and> frame_n st' = int (length (concat (map frames_of_read ?rs)))"
    by blast
  with n have "\<exists>st'. main_thread_loop (reads_then_close ?rs) 0 ?st = Some st' \<and> frame_n st' = 3"
    by simp
  with run zero two show ?thesis
    by blast
qed

subsection \<open>The invariant of the frame store\<close>

lemma frame_store_inv_store_frame:
  "0 \<le> frame_n st \<Longrightarrow> 0 \<le> frame_n (store_frame st f) \<and> frame_store_inv (store_frame st f)"
  by (simp add: frame_store_inv_def store_frame_def inc_frame_n_def set_last_frame_def)

lemma frame_store_inv_foldl:
  "0 \<le> frame_n st \<Longrightarrow> frame_store_inv st \<Longrightarrow>
   0 \<le> frame_n (foldl store_frame st fs) \<and> frame_store_inv (foldl store_frame st fs)"
proof (induction fs arbitrary: st)
  case Nil
  then show ?case by simp
next
  case (Cons f fs)
  from Cons.prems(1) have "0 \<le> frame_n (store_frame st f) \<and> frame_store_inv (store_frame st f)"
    by (rule frame_store_inv_store_frame)
  then show ?case by (simp add: Cons.IH)
qed

lemma frame_store_inv_loop_body:
  "0 \<le> frame_n st \<Longrightarrow> frame_store_inv st \<Longrightarrow>
   0 \<le> frame_n (loop_body st r) \<and> frame_store_inv (loop_body st r)"
  by (simp add: loop_body_foldl frame_store_inv_foldl)

lemma frame_store_inv_main_thread_loop:
  assumes "main_thread_loop env i st = Some st'"
  shows "0 \<le> frame_n st \<and> frame_store_inv st \<longrightarrow> 0 \<le> frame_n st' \<and> frame_store_inv st'"
proof (rule main_thread_loop.raw_induct
         [where P = "\<lambda>env i st st'. 0 \<le> frame_n st \<and> frame_store_inv st \<longrightarrow>
                                     0 \<le> frame_n st' \<and> frame_store_inv st'",
          OF _ assms])
  fix loop :: "(nat \<Rightarrow> event) \<Rightarrow> nat \<Rightarrow> controller \<Rightarrow> controller option"
  fix env i st st'
  assume IH: "\<And>env i st st'. loop env i st = Some st' \<Longrightarrow>
                0 \<le> frame_n st \<and> frame_store_inv st \<longrightarrow> 0 \<le> frame_n st' \<and> frame_store_inv st'"
    and body: "(if is_running st
                then case env i of
                       Iteration r \<Rightarrow> loop env (Suc i) (loop_body st r)
                     | Close \<Rightarrow> loop env (Suc i) (close st)
                else Some (conn_close st)) = Some st'"
  show "0 \<le> frame_n st \<and> frame_store_inv st \<longrightarrow> 0 \<le> frame_n st' \<and> frame_store_inv st'"
  proof (cases "is_running st")
    case False
    with body have "st' = conn_close st" by simp
    then show ?thesis by (simp add: conn_close_def frame_store_inv_def)
  next
    case True
    show ?thesis
    proof (cases "env i")
      case (Iteration r)
      with True body have "loop env (Suc i) (loop_body st r) = Some st'" by simp
      then have "0 \<le> frame_n (loop_body st r) \<and> frame_store_inv (loop_body st r) \<longrightarrow>
                 0 \<le> frame_n st' \<and> frame_store_inv st'"
        by (rule IH)
      then show ?thesis using frame_store_inv_loop_body by blast
    next
      case Close
      with True body have "loop env (Suc i) (close st) = Some st'" by simp
      then have "0 \<le> frame_n (close st) \<and> frame_store_inv (close st) \<longrightarrow>
                 0 \<le> frame_n st' \<and> frame_store_inv st'"
        by (rule IH)
      then show ?thesis by (simp add: close_def frame_store_inv_def)
    qed
  qed
qed

text \<open>
  C7. "The counter is 0 exactly when no frame is held" holds after \<^verbatim>\<open>__init__\<close>.
  From a state where it holds and the counter is not negative, it holds again (and the
  counter is again not negative) after a frame has been stored, after one iteration of
  the loop, and in the state a run of the loop returns. Line 181 replaces the frame
  before line 182 advances the counter: between the two lines "a counter that is not 0
  comes with a frame" still holds.
\<close>

theorem frame_store_invariant:
  "frame_store_inv (controller_init ms fp bs cam running)
   \<and> 0 \<le> frame_n (controller_init ms fp bs cam running)
   \<and> (0 \<le> frame_n st \<and> frame_store_inv st \<longrightarrow>
        0 \<le> frame_n (store_frame st fr) \<and> frame_store_inv (store_frame st fr))
   \<and> (0 \<le> frame_n st \<and> frame_store_inv st \<longrightarrow>
        0 \<le> frame_n (loop_body st r) \<and> frame_store_inv (loop_body st r))
   \<and> (0 \<le> frame_n st \<and> frame_store_inv st \<and> main_thread_loop env i st = Some st' \<longrightarrow>
        0 \<le> frame_n st' \<and> frame_store_inv st')
   \<and> store_frame st fr = inc_frame_n (set_last_frame st fr)
   \<and> ((frame_n st \<noteq> 0 \<longrightarrow> last_frame st \<noteq> None) \<longrightarrow>
        (frame_n (set_last_frame st fr) \<noteq> 0 \<longrightarrow> last_frame (set_last_frame st fr) \<noteq> None))"
proof -
  have "frame_store_inv (controller_init ms fp bs cam running)
        \<and> 0 \<le> frame_n (controller_init ms fp bs cam running)"
    by (simp add: frame_store_inv_def controller_init_def)
  moreover have "last_frame (set_last_frame st fr) \<noteq> None"
    by (simp add: set_last_frame_def)
  moreover have "store_frame st fr = inc_frame_n (set_last_frame st fr)"
    by (simp add: store_frame_def)
  ultimately show ?thesis
    using frame_store_inv_store_frame frame_store_inv_loop_body frame_store_inv_main_thread_loop
    by blast
qed

theorem frame_store_invariant_witness:
  "0 \<le> frame_n streaming \<and> frame_store_inv streaming
   \<and> frame_n streaming \<noteq> 0 \<and> last_frame streaming \<noteq> None
   \<and> main_thread_loop (reads_then_close [Parsed [1] [Decoded [Converted one_pixel]]]) 0 streaming
       = Some (conn_close (close (store_frame streaming one_pixel)))
   \<and> frame_store_inv (store_frame streaming one_pixel)
   \<and> frame_store_inv (loop_body streaming (Parsed [1] [Decoded [Converted one_pixel]]))
   \<and> frame_store_inv (conn_close (close (store_frame streaming one_pixel)))
   \<and> last_frame (set_last_frame streaming one_pixel) \<noteq> None"
proof -
  let ?rs = "[Parsed [1] [Decoded [Converted one_pixel]]]"
  have run: "is_running streaming"
    by (simp add: streaming_def controller_init_def store_frame_def inc_frame_n_def
                  set_last_frame_def)
  have s: "0 \<le> frame_n streaming \<and> frame_store_inv streaming
           \<and> frame_n streaming \<noteq> 0 \<and> last_frame streaming \<noteq> None"
    by (simp add: streaming_def controller_init_def store_frame_def inc_frame_n_def
                  set_last_frame_def frame_store_inv_def)
  have m: "main_thread_loop (reads_then_close ?rs) 0 streaming
             = Some (conn_close (close (store_frame streaming one_pixel)))"
    using main_thread_loop_reads [OF run, of 0 ?rs]
    by (simp add: loop_body_def)
  have t: "frame_n (set_last_frame streaming one_pixel) \<noteq> 0"
    by (simp add: streaming_def controller_init_def store_frame_def inc_frame_n_def
                  set_last_frame_def)
  from t frame_store_invariant
         [of None 90 131072 None True streaming one_pixel
             "Parsed [1] [Decoded [Converted one_pixel]]" "reads_then_close ?rs" 0
             "conn_close (close (store_frame streaming one_pixel))"] s m
  show ?thesis by blast
qed

subsection \<open>When the decode loop ends\<close>

lemma main_thread_loop_returns_closed:
  assumes "main_thread_loop env i st = Some st'"
  shows "conn_closed st' \<and> \<not> is_running st' \<and> (is_running st \<longrightarrow> (\<exists>k. env k = Close))"
proof (rule main_thread_loop.raw_induct
         [where P = "\<lambda>env i st st'. conn_closed st' \<and> \<not> is_running st'
                                     \<and> (is_running st \<longrightarrow> (\<exists>k. env k = Close))",
          OF _ assms])
  fix loop :: "(nat \<Rightarrow> event) \<Rightarrow> nat \<Rightarrow> controller \<Rightarrow> controller option"
  fix env i st st'
  assume IH: "\<And>env i st st'. loop env i st = Some st' \<Longrightarrow>
                conn_closed st' \<and> \<not> is_running st' \<and> (is_running st \<longrightarrow> (\<exists>k. env k = Close))"
    and body: "(if is_running st
                then case env i of
                       Iteration r \<Rightarrow> loop env (Suc i) (loop_body st r)
                     | Close \<Rightarrow> loop env (Suc i) (close st)
                else Some (conn_close st)) = Some st'"
  show "conn_closed st' \<and> \<not> is_running st' \<and> (is_running st \<longrightarrow> (\<exists>k. env k = Close))"
  proof (cases "is_running st")
    case False
    with body have "st' = conn_close st" by simp
    with False show ?thesis by (simp add: conn_close_def)
  next
    case True
    show ?thesis
    proof (cases "env i")
      case (Iteration r)
      with True body have "loop env (Suc i) (loop_body st r) = Some st'" by simp
      then have "conn_closed st' \<and> \<not> is_running st'
                 \<and> (is_running (loop_body st r) \<longrightarrow> (\<exists>k. env k = Close))"
        by (rule IH)
      with True show ?thesis by (simp add: is_running_loop_body)
    next
      case Close
      with True body have "loop env (Suc i) (close st) = Some st'" by simp
      then have "conn_closed st' \<and> \<not> is_running st'
                 \<and> (is_running (close st) \<longrightarrow> (\<exists>k. env k = Close))"
        by (rule IH)
      with Close show ?thesis by blast
    qed
  qed
qed

lemma main_thread_loop_never_closed:
  assumes "is_running st" and "\<forall>k. env k \<noteq> Close"
  shows "main_thread_loop env i st = None"
proof (cases "main_thread_loop env i st")
  case None
  then show ?thesis .
next
  case (Some st')
  then have "is_running st \<longrightarrow> (\<exists>k. env k = Close)"
    using main_thread_loop_returns_closed by blast
  with assms show ?thesis by blast
qed

lemma main_thread_loop_closed_later:
  "env (i + k) = Close \<Longrightarrow> \<exists>st'. main_thread_loop env i st = Some st'"
proof (induction k arbitrary: i st)
  case 0
  then have c: "env i = Close" by simp
  show ?case
  proof (cases "is_running st")
    case True
    with c show ?thesis by (simp add: main_thread_loop_Close)
  next
    case False
    then show ?thesis by (simp add: main_thread_loop_stopped)
  qed
next
  case (Suc k)
  then have later: "env (Suc i + k) = Close" by simp
  show ?case
  proof (cases "is_running st")
    case False
    then show ?thesis by (simp add: main_thread_loop_stopped)
  next
    case True
    show ?thesis
    proof (cases "env i")
      case Close
      with True show ?thesis by (simp add: main_thread_loop_Close)
    next
      case (Iteration r)
      with True have "main_thread_loop env i st = main_thread_loop env (Suc i) (loop_body st r)"
        by (rule main_thread_loop_Iteration)
      with Suc.IH [OF later] show ?thesis by simp
    qed
  qed
qed

text \<open>
  C5, as the code has it. The loop tests nothing but \<^verbatim>\<open>self.is_running\<close>. It returns,
  and has then closed the connection, if the flag is clear at the start or \<^verbatim>\<open>close\<close>
  is called at some time; if the flag is set and \<^verbatim>\<open>close\<close> is never called, the loop
  does not return, whatever the reads deliver. An exhausted stream alone does not end it.
\<close>

theorem decode_loop_ends_iff_closed:
  "((\<not> is_running st \<or> (\<exists>k. env k = Close)) \<longrightarrow>
      (\<exists>st'. main_thread_loop env 0 st = Some st' \<and> conn_closed st' \<and> \<not> is_running st'))
   \<and> ((is_running st2 \<and> (\<forall>k. env2 k \<noteq> Close)) \<longrightarrow> main_thread_loop env2 0 st2 = None)"
proof -
  have "\<exists>st'. main_thread_loop env 0 st = Some st' \<and> conn_closed st' \<and> \<not> is_running st'"
    if "\<not> is_running st \<or> (\<exists>k. env k = Close)"
  proof -
    from that have "\<exists>st'. main_thread_loop env 0 st = Some st'"
    proof
      assume "\<not> is_running st"
      then show ?thesis by (simp add: main_thread_loop_stopped)
    next
      assume "\<exists>k. env k = Close"
      then obtain k where "env (0 + k) = Close" by auto
      then show ?thesis by (rule main_thread_loop_closed_later)
    qed
    then show ?thesis
      using main_thread_loop_returns_closed by blast
  qed
  then show ?thesis
    using main_thread_loop_never_closed by blast
qed

theorem decode_loop_ends_iff_closed_witness:
  "(\<exists>k. reads_then_close [Parsed [] []] k = Close)
   \<and> (\<exists>st'. main_thread_loop (reads_then_close [Parsed [] []]) 0 streaming = Some st'
            \<and> conn_closed st' \<and> \<not> is_running st')
   \<and> is_running streaming \<and> (\<forall>k. exhausted_stream k \<noteq> Close)
   \<and> main_thread_loop exhausted_stream 0 streaming = None"
proof -
  have c: "reads_then_close [Parsed [] []] 1 = Close"
    by (simp add: reads_then_close_def)
  then have e: "\<exists>k. reads_then_close [Parsed [] []] k = Close" ..
  have r: "is_running streaming"
    by (simp add: streaming_def controller_init_def store_frame_def inc_frame_n_def
                  set_last_frame_def)
  have n: "\<forall>k. exhausted_stream k \<noteq> Close"
    by (simp add: exhausted_stream_def)
  from decode_loop_ends_iff_closed
         [of streaming "reads_then_close [Parsed [] []]" streaming exhausted_stream] e r n
  show ?thesis by blast
qed

text \<open>
  On the exhausted stream, with the running flag set as after a successful connection
  and \<^verbatim>\<open>close\<close> never called, the loop does not return: the exhaustion is not
  detected and the connection is not closed.
\<close>

theorem exhausted_stream_never_returns:
  "main_thread_loop exhausted_stream 0 (controller_init None 90 131072 None True) = None"
proof -
  have "is_running (controller_init None 90 131072 None True)"
    by (simp add: controller_init_def)
  moreover have "\<forall>k. exhausted_stream k \<noteq> Close"
    by (simp add: exhausted_stream_def)
  ultimately show ?thesis
    by (rule main_thread_loop_never_closed)
qed

subsection \<open>The sentinel left by the publishing thread\<close>

lemma publish_length: "publish st buf = Inr buf' \<Longrightarrow> length buf' = length buf"
  by (auto simp: publish_def split: option.splits sum.splits if_splits)

lemma write_sentinel_Inr:
  assumes "write_sentinel buf = Inr buf'"
  shows "length buf' = length buf \<and> take 4 buf' = be32 0"
proof -
  have z: "pack_I 0 = Inr (be32 0)"
    by (simp add: pack_I_def)
  from assms have len: "length (take 4 buf) = 4" and eq: "buf' = be32 0 @ drop 4 buf"
    by (auto simp: write_sentinel_def z split: if_splits)
  from len have "4 \<le> length buf" by simp
  with eq show ?thesis by simp
qed

lemma share_thread_loop_result:
  assumes "share_thread_loop obs i n buf = Some res"
  shows "\<forall>buf'. res = Inr buf' \<longrightarrow> length buf' = length buf \<and> take 4 buf' = be32 0"
proof (rule share_thread_loop.raw_induct
         [where P = "\<lambda>obs i n buf res.
                       \<forall>buf'. res = Inr buf' \<longrightarrow> length buf' = length buf \<and> take 4 buf' = be32 0",
          OF _ assms])
  fix loop :: "(nat \<Rightarrow> controller) \<Rightarrow> nat \<Rightarrow> int \<Rightarrow> byte list \<Rightarrow> (error + byte list) option"
  fix obs i n buf res
  assume IH: "\<And>obs i n buf res. loop obs i n buf = Some res \<Longrightarrow>
                \<forall>buf'. res = Inr buf' \<longrightarrow> length buf' = length buf \<and> take 4 buf' = be32 0"
    and body: "(if is_running (obs i)
                then if n \<noteq> frame_n (obs i)
                     then case publish (obs i) buf of
                            Inl e \<Rightarrow> Some (Inl e)
                          | Inr buf' \<Rightarrow> loop obs (Suc i) (frame_n (obs i)) buf'
                     else loop obs (Suc i) n buf
                else Some (write_sentinel buf)) = Some res"
  show "\<forall>buf'. res = Inr buf' \<longrightarrow> length buf' = length buf \<and> take 4 buf' = be32 0"
  proof (cases "is_running (obs i)")
    case False
    with body have "write_sentinel buf = res" by simp
    then show ?thesis using write_sentinel_Inr by blast
  next
    case True
    show ?thesis
    proof (cases "n \<noteq> frame_n (obs i)")
      case False
      with True body have "loop obs (Suc i) n buf = Some res" by simp
      then show ?thesis by (rule IH)
    next
      case changed: True
      show ?thesis
      proof (cases "publish (obs i) buf")
        case (Inl e)
        with True changed body have "res = Inl e" by simp
        then show ?thesis by simp
      next
        case (Inr buf2)
        with True changed body have "loop obs (Suc i) (frame_n (obs i)) buf2 = Some res"
          by simp
        then have "\<forall>buf'. res = Inr buf' \<longrightarrow> length buf' = length buf2 \<and> take 4 buf' = be32 0"
          by (rule IH)
        moreover from Inr have "length buf2 = length buf"
          by (rule publish_length)
        ultimately show ?thesis by simp
      qed
    qed
  qed
qed

text \<open>
  C4. When the publishing loop has ended because the running flag was cleared and line
  220 has been executed, on a segment with room for the 8 bytes of the header, the
  first 4 bytes of the segment decode to 0 as a big-endian number, and \<open>get_frame\<close> of
  any subscriber, on the content the segment is left with, raises the
  \<^verbatim>\<open>RuntimeError\<close> "VideoStream Closed!". The subscriber is then in a state with
  frame id 0, from which the next call raises in the same way.
\<close>

theorem closed_segment_raises:
  assumes "share_thread_loop obs i n buf = Some (Inr buf')" and "8 \<le> length buf"
  shows "from_be (take 4 buf') = 0
         \<and> get_frame vs buf' = (vs\<lparr>frame_id := 0\<rparr>, Inl (RuntimeError ''VideoStream Closed!''))"
proof -
  from share_thread_loop_result [OF assms(1)]
  have len: "length buf' = length buf" and z: "take 4 buf' = be32 0"
    by simp_all
  have zero: "from_be (be32 0) = 0"
    by (rule from_be_be32) simp
  from len assms(2) have "length (take 8 buf') = 8" by simp
  moreover have "take 4 (take 8 buf') = take 4 buf'" by simp
  ultimately have
    "unpack_IHH (take 8 buf')
       = Inr (0, from_be (take 2 (drop 4 (take 8 buf'))), from_be (drop 6 (take 8 buf')))"
    by (simp add: unpack_IHH_def z zero)
  then have "get_frame vs buf' = (vs\<lparr>frame_id := 0\<rparr>, Inl (RuntimeError ''VideoStream Closed!''))"
    by (simp add: get_frame_def coordinate_def read_header_def)
  with z zero show ?thesis by simp
qed

theorem closed_segment_raises_witness:
  "share_thread_loop closed_after_one 0 0 (replicate 11 0)
     = Some (Inr [0, 0, 0, 0, 0, 1, 0, 1, 9, 9, 9])
   \<and> 8 \<le> length (replicate 11 (0 :: byte))
   \<and> from_be (take 4 [0, 0, 0, 0, 0, 1, 0, 1, 9, 9, 9]) = 0
   \<and> get_frame \<lparr>frame_v = \<lparr>view_rows = 1, view_cols = 1, view_chans = 3, view_offset = 8\<rparr>,
                 frame_h = \<lparr>view_rows = 1, view_cols = 1, view_chans = 3, view_offset = 8\<rparr>,
                 frame_id = 1\<rparr>
        [0, 0, 0, 0, 0, 1, 0, 1, 9, 9, 9]
     = (\<lparr>frame_v = \<lparr>view_rows = 1, view_cols = 1, view_chans = 3, view_offset = 8\<rparr>,
         frame_h = \<lparr>view_rows = 1, view_cols = 1, view_chans = 3, view_offset = 8\<rparr>,
         frame_id = 0\<rparr>,
        Inl (RuntimeError ''VideoStream Closed!''))"
proof -
  let ?vs = "\<lparr>frame_v = \<lparr>view_rows = 1, view_cols = 1, view_chans = 3, view_offset = 8\<rparr>,
              frame_h = \<lparr>view_rows = 1, view_cols = 1, view_chans = 3, view_offset = 8\<rparr>,
              frame_id = 1\<rparr>"
  have s: "is_running streaming \<and> frame_n streaming = 1 \<and> last_frame streaming = Some one_pixel"
    by (simp add: streaming_def controller_init_def store_frame_def inc_frame_n_def
                  set_last_frame_def)
  have p: "publish streaming (replicate 11 0) = Inr [0, 0, 0, 1, 0, 1, 0, 1, 9, 9, 9]"
    by (simp add: publish_def s pack_IHH_def be32_def be16_def one_pixel_def)
  have w: "write_sentinel [0, 0, 0, 1, 0, 1, 0, 1, 9, 9, 9] = Inr [0, 0, 0, 0, 0, 1, 0, 1, 9, 9, 9]"
    by (simp add: write_sentinel_def pack_I_def be32_def)
  have stop: "share_thread_loop closed_after_one (Suc 0) 1 [0, 0, 0, 1, 0, 1, 0, 1, 9, 9, 9]
                = Some (Inr [0, 0, 0, 0, 0, 1, 0, 1, 9, 9, 9])"
    by (subst share_thread_loop.simps) (simp add: closed_after_one_def close_def w)
  have run: "share_thread_loop closed_after_one 0 0 (replicate 11 0)
               = Some (Inr [0, 0, 0, 0, 0, 1, 0, 1, 9, 9, 9])"
    by (subst share_thread_loop.simps) (simp add: closed_after_one_def s p stop)
  have len: "8 \<le> length (replicate 11 (0 :: byte))" by simp
  from closed_segment_raises [OF run len, of ?vs] run len
  show ?thesis by simp
qed

end
